theory Spec2Isabelle
  imports Complex_Main "HOL-Library.Sublist"
begin

section \<open>The sample ingestion endpoint of mesh-map\<close>

text \<open>
  The program is \<^verbatim>\<open>functions/put-sample.js\<close>: its \<^verbatim>\<open>onRequest\<close> handler parses a
  location, lower-cases the reported path, derives the store key and runs a
  read-merge-write closure under \<^verbatim>\<open>retry\<close>. The four helpers it imports from
  \<^verbatim>\<open>content/shared.js\<close> (\<^verbatim>\<open>parseLocation\<close>, \<^verbatim>\<open>ageInDays\<close>, \<^verbatim>\<open>sampleKey\<close>,
  \<^verbatim>\<open>retry\<close>) are not among the sources at hand; each is modelled from the
  specification and marked as such. The key-value store and the clock are the
  environment: what a read returns, how the store answers a write and what
  \<^verbatim>\<open>Date.now()\<close> yields are inputs of the model, one set per attempt.
\<close>

subsection \<open>Data\<close>

text \<open>
  A JavaScript number: the three non-finite values and the finite ones. No
  arithmetic is done on coordinates, so the finite values are kept as rationals.
\<close>

datatype number = NaN | PosInfinity | NegInfinity | Finite rat

text \<open>
  A \<^verbatim>\<open>lat\<close> or \<^verbatim>\<open>lon\<close> field of the decoded JSON body, as the location
  normaliser distinguishes it: absent, present but not numeric, or a number.
\<close>

datatype raw = Missing | NonNumeric | Numeric number

text \<open>The decoded request body: \<^verbatim>\<open>data.lat\<close>, \<^verbatim>\<open>data.lon\<close>, \<^verbatim>\<open>data.path\<close>
  (\<open>None\<close> when the field is null or absent).\<close>

record request_data =
  data_lat :: raw
  data_lon :: raw
  data_path :: "string list option"

text \<open>The metadata object stored with a sample: \<^verbatim>\<open>{ time: ..., path: [...] }\<close>.\<close>

record metadata =
  time :: int
  path :: "string list"

text \<open>What \<^verbatim>\<open>store.getWithMetadata(key)\<close> resolves to; each field may be null.\<close>

record resp =
  resp_value :: "string option"
  resp_metadata :: "metadata option"

text \<open>
  The store's answer to \<^verbatim>\<open>store.put\<close>: the write is accepted, rejected by the
  one-write-per-key-per-second limit, or rejected by any other store fault.
\<close>

datatype put_result = Accepted | RateLimited | StoreError

text \<open>
  The environment of one invocation of the closure: the clock read by
  \<^verbatim>\<open>ageInDays\<close>, the result of the read and the answer to the write.
\<close>

record attempt_env =
  now :: int
  got :: resp
  put_outcome :: put_result

text \<open>The store operations an ingest performs, in order, and the pauses between attempts.\<close>

datatype event =
    GetWithMetadata string
  | Put string string metadata put_result
  | Delay

datatype error = InvalidLocation | StoreUnavailable | RetriesExhausted

text \<open>What the handler resolves to: \<^verbatim>\<open>new Response('OK')\<close>, or a thrown error.\<close>

datatype http_response = OK | Threw error

text \<open>
  The result of a request: the response, the way the promise returned by
  \<^verbatim>\<open>retry\<close> settles (\<open>None\<close> when \<^verbatim>\<open>retry\<close> was never called), and the store
  operations performed.
\<close>

record outcome =
  response :: http_response
  settled :: "(error + unit) option"
  events :: "event list"

subsection \<open>Helpers of \<^verbatim>\<open>content/shared.js\<close>\<close>

text \<open>
  \<^verbatim>\<open>String.prototype.toLowerCase\<close> on the ASCII letters; every other character is
  left as it is (edge identifiers are short hexadecimal strings).
\<close>

definition lowerChar :: "char \<Rightarrow> char" where
  "lowerChar c =
     (let n = (of_char c :: nat) in if 65 \<le> n \<and> n \<le> 90 then char_of (n + 32) else c)"

definition toLowerCase :: "string \<Rightarrow> string" where
  "toLowerCase s = map lowerChar s"

text \<open>
  Modelled from the spec: \<^verbatim>\<open>parseLocation\<close> of \<^verbatim>\<open>content/shared.js\<close> is missing.
  Section 4.1: \<^verbatim>\<open>normalize(rawLat, rawLon)\<close> fails with \<^verbatim>\<open>InvalidLocation\<close> when
  either input is not a finite number (non-numeric, NaN, or missing); numeric
  values pass through unchanged, with no range clamping.
\<close>

fun isFiniteNumber :: "raw \<Rightarrow> bool" where
  "isFiniteNumber (Numeric (Finite q)) = True"
| "isFiniteNumber _ = False"

fun parseLocation :: "raw \<Rightarrow> raw \<Rightarrow> error + (number \<times> number)" where
  "parseLocation (Numeric (Finite a)) (Numeric (Finite b)) = Inr (Finite a, Finite b)"
| "parseLocation _ _ = Inl InvalidLocation"

text \<open>
  Modelled from the spec: \<^verbatim>\<open>ageInDays\<close> of \<^verbatim>\<open>content/shared.js\<close> is missing.
  Section 4.3, step 1b: the age is \<^verbatim>\<open>(now - record.time)\<close> in whole days; times
  are epoch milliseconds.
\<close>

definition ageInDays :: "int \<Rightarrow> int \<Rightarrow> int" where
  "ageInDays now_ms t = (now_ms - t) div 86400000"

text \<open>
  Modelled from the spec: \<^verbatim>\<open>sampleKey\<close> of \<^verbatim>\<open>content/shared.js\<close> is missing.
  Section 4.2: a pure mapping of \<open>(lat, lon)\<close> that embeds both coordinates in a
  fixed, unambiguous textual layout. The layout taken here is the one of the
  sibling handlers, \<^verbatim>\<open>`${lat}|${lon}`\<close>; the conversion of a number to text is
  the language's, and is a parameter.
\<close>

definition sampleKey :: "('n \<Rightarrow> string) \<Rightarrow> 'n \<Rightarrow> 'n \<Rightarrow> string" where
  "sampleKey toString lat lon = toString lat @ ''|'' @ toString lon"

text \<open>
  Modelled from the spec: \<^verbatim>\<open>retry\<close> of \<^verbatim>\<open>content/shared.js\<close> is missing.
  Section 4.3, step 2: when the write is rejected by the rate limit, the whole
  cycle is run again after a backoff delay, up to a bounded number of attempts
  (\<open>RetriesExhausted\<close> after the last one); any other store error is not retried
  (\<open>StoreUnavailable\<close>). The bound is a parameter. The closure \<open>fn\<close> is given
  the index of the attempt and the state it shares between attempts, and returns
  how its write ended, the operations it performed, and the state it leaves.
\<close>

fun retry :: "nat \<Rightarrow> (nat \<Rightarrow> 's \<Rightarrow> (put_result \<times> event list) \<times> 's) \<Rightarrow> nat \<Rightarrow> 's
    \<Rightarrow> ((error + unit) \<times> event list) \<times> 's" where
  "retry 0 fn i s = ((Inl RetriesExhausted, []), s)"
| "retry (Suc n) fn i s =
     (case fn i s of
        ((Accepted, evs), s') \<Rightarrow> ((Inr (), evs), s')
      | ((StoreError, evs), s') \<Rightarrow> ((Inl StoreUnavailable, evs), s')
      | ((RateLimited, evs), s') \<Rightarrow>
          (if n = 0 then ((Inl RetriesExhausted, evs), s')
           else (case retry n fn (Suc i) s' of
                   ((r, evs'), s'') \<Rightarrow> ((r, evs @ Delay # evs'), s''))))"

subsection \<open>\<^verbatim>\<open>functions/put-sample.js\<close>\<close>

text \<open>
  The body of \<^verbatim>\<open>resp.metadata.path.forEach\<close>: push \<open>p\<close> unless
  \<^verbatim>\<open>metadata.path.includes(p)\<close>, an exact string comparison.
\<close>

definition mergeEdge :: "string list \<Rightarrow> string \<Rightarrow> string list" where
  "mergeEdge mpath p = (if \<not> (p \<in> set mpath) then mpath @ [p] else mpath)"

text \<open>
  Lines 18 to 26 of the closure: the read and the merge into the metadata object
  that the closure shares with the handler and with its own later invocations.
\<close>

definition mergeExisting :: "attempt_env \<Rightarrow> metadata \<Rightarrow> metadata" where
  "mergeExisting env md =
     (case resp_value (got env) of
        None \<Rightarrow> md
      | Some v \<Rightarrow>
          (case resp_metadata (got env) of
             None \<Rightarrow> md
           | Some rm \<Rightarrow>
               (if ageInDays (now env) (time rm) < 1
                then md\<lparr>path := foldl mergeEdge (path md) (path rm)\<rparr>
                else md)))"

text \<open>The closure passed to \<^verbatim>\<open>retry\<close>: read, merge, then \<^verbatim>\<open>store.put(key, "", {metadata})\<close>.\<close>

definition writeCycle :: "string \<Rightarrow> attempt_env \<Rightarrow> metadata
    \<Rightarrow> (put_result \<times> event list) \<times> metadata" where
  "writeCycle key env md =
     (let md' = mergeExisting env md
      in ((put_outcome env, [GetWithMetadata key, Put key [] md' (put_outcome env)]), md'))"

text \<open>Line 10: \<^verbatim>\<open>(data?.path ?? []).map(p => p.toLowerCase())\<close>.\<close>

definition requestPath :: "request_data \<Rightarrow> string list" where
  "requestPath data = map toLowerCase (case data_path data of None \<Rightarrow> [] | Some ps \<Rightarrow> ps)"

text \<open>
  The handler. \<open>t\<close> is \<^verbatim>\<open>Date.now()\<close> at line 9, \<open>world i\<close> the environment of
  attempt \<open>i\<close>. The call of \<^verbatim>\<open>retry\<close> is not awaited: the handler returns
  \<^verbatim>\<open>new Response('OK')\<close> whatever becomes of the promise, whose settlement and
  store operations (run to completion) are reported beside the response.
\<close>

definition onRequest :: "(number \<Rightarrow> string) \<Rightarrow> nat \<Rightarrow> request_data \<Rightarrow> int
    \<Rightarrow> (nat \<Rightarrow> attempt_env) \<Rightarrow> outcome" where
  "onRequest toString maxAttempts data t world =
     (case parseLocation (data_lat data) (data_lon data) of
        Inl e \<Rightarrow> \<lparr>response = Threw e, settled = None, events = []\<rparr>
      | Inr (lat, lon) \<Rightarrow>
          (let p = requestPath data;
               key = sampleKey toString lat lon;
               md = \<lparr>time = t, path = p\<rparr>
           in (case retry maxAttempts (\<lambda>i. writeCycle key (world i)) 0 md of
                 ((r, evs), md') \<Rightarrow> \<lparr>response = OK, settled = Some r, events = evs\<rparr>)))"

text \<open>The metadata of the writes an ingest attempted, in order.\<close>

fun putMetadata :: "event list \<Rightarrow> metadata list" where
  "putMetadata [] = []"
| "putMetadata (Put k v m r # evs) = m # putMetadata evs"
| "putMetadata (e # evs) = putMetadata evs"

text \<open>The metadata of the writes the store accepted.\<close>

fun accepted :: "event list \<Rightarrow> metadata list" where
  "accepted [] = []"
| "accepted (Put k v m Accepted # evs) = m # accepted evs"
| "accepted (e # evs) = accepted evs"

subsection \<open>The specification's wording, for comparison\<close>

text \<open>
  The merge rule as section 4.3, step 1c words it: the new edges (lower-cased),
  then every edge of the existing record that is not already present under a
  case-insensitive membership check.
\<close>

definition specMergeRule :: "string list \<Rightarrow> string list \<Rightarrow> string list" where
  "specMergeRule newEdges existing =
     foldl (\<lambda>acc p. if (\<exists>q \<in> set acc. toLowerCase q = toLowerCase p) then acc else acc @ [p])
       (map toLowerCase newEdges) existing"

text \<open>
  The retry policy as section 4.3, step 2 words it, as a property of the
  operations of one ingest and of its result: at most \<open>budget\<close> cycles, each a
  read of the key followed by a write of the empty value to it; a delay between
  two cycles; every cycle but the last ended in a rate-limit rejection; the last
  one ends so only when the budget is used up.
\<close>

fun retryTrace :: "string \<Rightarrow> nat \<Rightarrow> event list \<Rightarrow> error + unit \<Rightarrow> bool" where
  "retryTrace key (Suc n) [GetWithMetadata k, Put k' v m r] res =
     (k = key \<and> k' = key \<and> v = [] \<and>
      (case r of
         Accepted \<Rightarrow> res = Inr ()
       | StoreError \<Rightarrow> res = Inl StoreUnavailable
       | RateLimited \<Rightarrow> n = 0 \<and> res = Inl RetriesExhausted))"
| "retryTrace key (Suc n) (GetWithMetadata k # Put k' v m r # Delay # rest) res =
     (k = key \<and> k' = key \<and> v = [] \<and> r = RateLimited \<and> retryTrace key n rest res)"
| "retryTrace key n evs res = False"

subsection \<open>Example environments\<close>

text \<open>A stored sample with the given time and edges, and the answer for a key that has none.\<close>

definition stored :: "int \<Rightarrow> string list \<Rightarrow> resp" where
  "stored t0 edges = \<lparr>resp_value = Some [], resp_metadata = Some \<lparr>time = t0, path = edges\<rparr>\<rparr>"

definition absent :: resp where
  "absent = \<lparr>resp_value = None, resp_metadata = None\<rparr>"

text \<open>The environment that gives attempt \<open>i\<close> the \<open>i\<close>-th entry of a list (the last one from then on).\<close>

definition script :: "attempt_env list \<Rightarrow> nat \<Rightarrow> attempt_env" where
  "script envs i = envs ! min i (length envs - 1)"

text \<open>
  A number-to-text conversion for the examples: the decimal digits of an integral
  coordinate, as the language prints them.
\<close>

fun decimal :: "nat \<Rightarrow> string" where
  "decimal n = (if n < 10 then [''0123456789'' ! n] else decimal (n div 10) @ [''0123456789'' ! (n mod 10)])"

fun integral :: "number \<Rightarrow> string" where
  "integral (Finite q) = (if q < 0 then ''-'' else []) @ decimal (nat \<lfloor>\<bar>q\<bar>\<rfloor>)"
| "integral NaN = ''NaN''"
| "integral PosInfinity = ''Infinity''"
| "integral NegInfinity = ''-Infinity''"

text \<open>A request at latitude 1, longitude 23 reporting the given path.\<close>

definition sighting :: "string list \<Rightarrow> request_data" where
  "sighting ps = \<lparr>data_lat = Numeric (Finite 1), data_lon = Numeric (Finite 23), data_path = Some ps\<rparr>"

text \<open>
  Two attempts: the first reads a fresh record with edge \<open>x\<close> and is rate-limited;
  by the second another writer has stored \<open>y\<close>, \<open>x\<close>, and the write is accepted.
\<close>

definition retriedWorld :: "nat \<Rightarrow> attempt_env" where
  "retriedWorld = script
     [\<lparr>now = 1000, got = stored 500 [''x''], put_outcome = RateLimited\<rparr>,
      \<lparr>now = 2000, got = stored 1500 [''y'', ''x''], put_outcome = Accepted\<rparr>]"

text \<open>
  Two attempts on a record of time 0 with edge \<open>x\<close>: the first, half a second
  before the record is one day old, is rate-limited; the second, half a second
  after, is accepted.
\<close>

definition agedWorld :: "nat \<Rightarrow> attempt_env" where
  "agedWorld = script
     [\<lparr>now = 86399500, got = stored 0 [''x''], put_outcome = RateLimited\<rparr>,
      \<lparr>now = 86400500, got = stored 0 [''x''], put_outcome = Accepted\<rparr>]"

section \<open>Properties\<close>

subsection \<open>The merge loop\<close>

lemma mergeEdge_prefix: "prefix acc (foldl mergeEdge acc old)"
proof (induction old arbitrary: acc)
  case Nil
  show ?case by simp
next
  case (Cons p ps)
  have a: "prefix acc (mergeEdge acc p)" by (simp add: mergeEdge_def)
  have b: "prefix (mergeEdge acc p) (foldl mergeEdge (mergeEdge acc p) ps)" by (rule Cons.IH)
  show ?case using prefix_order.trans [OF a b] by simp
qed



lemma mergeEdge_covered: "set old \<subseteq> set acc \<Longrightarrow> foldl mergeEdge acc old = acc"
  by (induction old arbitrary: acc) (auto simp: mergeEdge_def)

lemma mergeEdge_fresh:
  "distinct ys \<Longrightarrow> set ys \<inter> set acc = {} \<Longrightarrow> foldl mergeEdge acc ys = acc @ ys"
  by (induction ys arbitrary: acc) (auto simp: mergeEdge_def)

lemma mergeEdge_appended:
  "\<exists>ys. foldl mergeEdge acc old = acc @ ys \<and> subseq ys old \<and> distinct ys
      \<and> set ys = set old - set acc"
proof (induction old arbitrary: acc)
  case Nil
  show ?case by simp
next
  case (Cons p ps)
  show ?case
  proof (cases "p \<in> set acc")
    case True
    from Cons.IH [of acc] obtain ys where
      ys: "foldl mergeEdge acc ps = acc @ ys" "subseq ys ps" "distinct ys"
          "set ys = set ps - set acc" by blast
    have "foldl mergeEdge acc (p # ps) = acc @ ys"
      using True ys(1) by (simp add: mergeEdge_def)
    moreover have "subseq ys (p # ps)" using ys(2) by (rule list_emb_Cons)
    moreover have "set ys = set (p # ps) - set acc" using True ys(4) by auto
    ultimately show ?thesis using ys(3) by blast
  next
    case False
    from Cons.IH [of "acc @ [p]"] obtain ys where
      ys: "foldl mergeEdge (acc @ [p]) ps = (acc @ [p]) @ ys" "subseq ys ps" "distinct ys"
          "set ys = set ps - set (acc @ [p])" by blast
    have "foldl mergeEdge acc (p # ps) = acc @ (p # ys)"
      using False ys(1) by (simp add: mergeEdge_def)
    moreover have "subseq (p # ys) (p # ps)" using ys(2) by simp
    moreover have "p \<notin> set ys" using ys(4) by simp
    moreover have "set (p # ys) = set (p # ps) - set acc" using False ys(4) by auto
    ultimately show ?thesis using ys(3) by (intro exI [of _ "p # ys"]) simp
  qed
qed

lemma mergeEdge_idem:
  "foldl mergeEdge acc (foldl mergeEdge acc old) = foldl mergeEdge acc old"
proof -
  obtain ys where ys: "foldl mergeEdge acc old = acc @ ys" "distinct ys"
      "set ys = set old - set acc"
    using mergeEdge_appended [of acc old] by blast
  have "foldl mergeEdge acc (acc @ ys) = foldl mergeEdge (foldl mergeEdge acc acc) ys"
    by simp
  also have "foldl mergeEdge acc acc = acc" by (simp add: mergeEdge_covered)
  also have "foldl mergeEdge acc ys = acc @ ys"
    using ys by (intro mergeEdge_fresh) auto
  finally show ?thesis using ys by simp
qed

subsection \<open>The closure under \<^verbatim>\<open>retry\<close>\<close>

lemma writeCycle_eq:
  "writeCycle key env md =
     ((put_outcome env,
       [GetWithMetadata key, Put key [] (mergeExisting env md) (put_outcome env)]),
      mergeExisting env md)"
  by (simp add: writeCycle_def Let_def)

lemma retry_Suc_writeCycle:
  "retry (Suc n) (\<lambda>i. writeCycle key (world i)) i md =
     (let md1 = mergeExisting (world i) md;
          r = put_outcome (world i);
          cyc = [GetWithMetadata key, Put key [] md1 r]
      in if r = RateLimited \<and> n \<noteq> 0
         then (let rest = retry n (\<lambda>i. writeCycle key (world i)) (Suc i) md1
               in ((fst (fst rest), cyc @ Delay # snd (fst rest)), snd rest))
         else ((case r of Accepted \<Rightarrow> Inr () | RateLimited \<Rightarrow> Inl RetriesExhausted
                | StoreError \<Rightarrow> Inl StoreUnavailable, cyc), md1))"
  by (cases "put_outcome (world i)") (simp_all add: writeCycle_eq Let_def case_prod_beta)

declare retry.simps(2) [simp del]

lemma retry_trace:
  "0 < n \<Longrightarrow> retry n (\<lambda>i. writeCycle key (world i)) i md = ((res, evs), md')
     \<Longrightarrow> retryTrace key n evs res"
proof (induction n arbitrary: i md res evs md')
  case 0
  then show ?case by simp
next
  case (Suc n)
  let ?md1 = "mergeExisting (world i) md"
  show ?case
  proof (cases "put_outcome (world i) = RateLimited \<and> n \<noteq> 0")
    case True
    obtain res' evs' md2 where
      rest: "retry n (\<lambda>i. writeCycle key (world i)) (Suc i) ?md1 = ((res', evs'), md2)"
      by (metis prod.exhaust)
    from True have "0 < n" by simp
    from Suc.IH [OF this rest] have tr: "retryTrace key n evs' res'" .
    from Suc.prems(2) True rest have "res = res'"
      and "evs = GetWithMetadata key # Put key [] ?md1 RateLimited # Delay # evs'"
      by (simp_all add: retry_Suc_writeCycle Let_def)
    with tr show ?thesis by simp
  next
    case False
    with Suc.prems(2) show ?thesis
      by (cases "put_outcome (world i)") (auto simp: retry_Suc_writeCycle Let_def)
  qed
qed

lemma retry_puts:
  assumes "\<And>j m. P m \<Longrightarrow> P (mergeExisting (world j) m)"
  shows "P md \<Longrightarrow>
     \<forall>m \<in> set (putMetadata (snd (fst (retry n (\<lambda>i. writeCycle key (world i)) i md)))). P m"
proof (induction n arbitrary: i md)
  case 0
  show ?case by simp
next
  case (Suc n)
  let ?md1 = "mergeExisting (world i) md"
  have p1: "P ?md1" using Suc.prems by (rule assms)
  show ?case
  proof (cases "put_outcome (world i) = RateLimited \<and> n \<noteq> 0")
    case True
    from Suc.IH [OF p1, of "Suc i"] True show ?thesis using p1
      by (simp add: retry_Suc_writeCycle Let_def )
  next
    case False
    then show ?thesis using p1
      by (simp add: retry_Suc_writeCycle Let_def)
  qed
qed

lemma retry_chain:
  "k < length (putMetadata (snd (fst (retry n (\<lambda>i. writeCycle key (world i)) i md)))) \<Longrightarrow>
   putMetadata (snd (fst (retry n (\<lambda>i. writeCycle key (world i)) i md))) ! k =
     mergeExisting (world (i + k))
       (if k = 0 then md
        else putMetadata (snd (fst (retry n (\<lambda>i. writeCycle key (world i)) i md))) ! (k - 1))"
proof (induction n arbitrary: i md k)
  case 0
  then show ?case by simp
next
  case (Suc n)
  let ?md1 = "mergeExisting (world i) md"
  let ?rest = "putMetadata (snd (fst (retry n (\<lambda>i. writeCycle key (world i)) (Suc i) ?md1)))"
  show ?case
  proof (cases "put_outcome (world i) = RateLimited \<and> n \<noteq> 0")
    case True
    then have ms: "putMetadata (snd (fst (retry (Suc n) (\<lambda>i. writeCycle key (world i)) i md)))
        = ?md1 # ?rest"
      by (simp add: retry_Suc_writeCycle Let_def)
    show ?thesis
    proof (cases k)
      case 0
      then show ?thesis by (simp add: ms)
    next
      case (Suc k')
      with Suc.prems ms have "k' < length ?rest" by simp
      from Suc.IH [OF this] Suc show ?thesis
        by (cases k') (simp_all add: ms)
    qed
  next
    case False
    then have ms: "putMetadata (snd (fst (retry (Suc n) (\<lambda>i. writeCycle key (world i)) i md)))
        = [?md1]"
      by (simp add: retry_Suc_writeCycle Let_def)
    with Suc.prems show ?thesis by simp
  qed
qed

lemma retry_attempts:
  "length (putMetadata (snd (fst (retry n (\<lambda>i. writeCycle key (world i)) i md)))) \<le> n"
proof (induction n arbitrary: i md)
  case 0
  show ?case by simp
next
  case (Suc n)
  show ?case
  proof (cases "put_outcome (world i) = RateLimited \<and> n \<noteq> 0")
    case True
    with Suc.IH [of "Suc i" "mergeExisting (world i) md"] show ?thesis
      by (simp add: retry_Suc_writeCycle Let_def)
  next
    case False
    then show ?thesis by (simp add: retry_Suc_writeCycle Let_def)
  qed
qed

lemma onRequest_failed:
  "parseLocation (data_lat d) (data_lon d) = Inl e \<Longrightarrow>
   onRequest ts cap d t world = \<lparr>response = Threw e, settled = None, events = []\<rparr>"
  by (simp add: onRequest_def)

lemma onRequest_parsed:
  "parseLocation (data_lat d) (data_lon d) = Inr (la, lo) \<Longrightarrow>
   onRequest ts cap d t world =
     \<lparr>response = OK,
      settled = Some (fst (fst (retry cap (\<lambda>i. writeCycle (sampleKey ts la lo) (world i)) 0
                  \<lparr>time = t, path = requestPath d\<rparr>))),
      events = snd (fst (retry cap (\<lambda>i. writeCycle (sampleKey ts la lo) (world i)) 0
                  \<lparr>time = t, path = requestPath d\<rparr>))\<rparr>"
  by (simp add: onRequest_def Let_def split: prod.splits)

subsection \<open>The handler\<close>

lemma mergeExisting_time: "time (mergeExisting env md) = time md"
  by (simp add: mergeExisting_def split: option.splits)

lemma onRequest_puts:
  assumes "\<And>j m. P m \<Longrightarrow> P (mergeExisting (world j) m)"
    and "P \<lparr>time = t, path = requestPath d\<rparr>"
  shows "\<forall>m \<in> set (putMetadata (events (onRequest ts cap d t world))). P m"
proof (cases "parseLocation (data_lat d) (data_lon d)")
  case (Inl e)
  then show ?thesis by (simp add: onRequest_failed)
next
  case (Inr c)
  obtain la lo where "c = (la, lo)" by (cases c)
  with Inr have "parseLocation (data_lat d) (data_lon d) = Inr (la, lo)" by simp
  then show ?thesis
    using retry_puts [of P world, OF assms] by (simp add: onRequest_parsed)
qed

lemma mergeExisting_prefix: "prefix (path md) (path (mergeExisting env md))"
  by (simp add: mergeExisting_def mergeEdge_prefix split: option.splits)


lemma onRequest_chain:
  "k < length (putMetadata (events (onRequest ts cap d t world))) \<Longrightarrow>
   putMetadata (events (onRequest ts cap d t world)) ! k =
     mergeExisting (world k)
       (if k = 0 then \<lparr>time = t, path = requestPath d\<rparr>
        else putMetadata (events (onRequest ts cap d t world)) ! (k - 1))"
proof (cases "parseLocation (data_lat d) (data_lon d)")
  case (Inl e)
  assume "k < length (putMetadata (events (onRequest ts cap d t world)))"
  with Inl show ?thesis by (simp add: onRequest_failed)
next
  case (Inr c)
  assume k: "k < length (putMetadata (events (onRequest ts cap d t world)))"
  obtain la lo where "c = (la, lo)" by (cases c)
  with Inr have ok: "parseLocation (data_lat d) (data_lon d) = Inr (la, lo)" by simp
  from k show ?thesis
    using retry_chain [of k cap "sampleKey ts la lo" world 0 "\<lparr>time = t, path = requestPath d\<rparr>"]
    by (simp add: onRequest_parsed [OF ok])
qed


lemma chain_prefix:
  assumes step: "\<And>k. Suc k < length ms \<Longrightarrow> prefix (path (ms ! k)) (path (ms ! Suc k))"
  shows "i \<le> j \<Longrightarrow> j < length ms \<Longrightarrow> prefix (path (ms ! i)) (path (ms ! j))"
proof (induction j)
  case 0
  then show ?case by simp
next
  case (Suc j)
  show ?case
  proof (cases "i = Suc j")
    case True
    then show ?thesis by simp
  next
    case False
    with Suc.prems have "i \<le> j" "j < length ms" by simp_all
    then have a: "prefix (path (ms ! i)) (path (ms ! j))" by (rule Suc.IH)
    have b: "prefix (path (ms ! j)) (path (ms ! Suc j))" using Suc.prems(2) by (rule step)
    show ?thesis using prefix_order.trans [OF a b] .
  qed
qed

lemma mergeExisting_fresh:
  "got env = \<lparr>resp_value = Some v, resp_metadata = Some rm\<rparr> \<Longrightarrow>
   ageInDays (now env) (time rm) < 1 \<Longrightarrow>
   path (mergeExisting env md) = foldl mergeEdge (path md) (path rm)"
  by (simp add: mergeExisting_def)









lemma mergeExisting_stale:
  "resp_value (got env) = None \<or> resp_metadata (got env) = None
     \<or> (\<exists>rm. resp_metadata (got env) = Some rm \<and> 1 \<le> ageInDays (now env) (time rm))
   \<Longrightarrow> mergeExisting env md = md"
  by (auto simp: mergeExisting_def split: option.splits)

lemma ageInDays_fresh: "(ageInDays now_ms t < 1) = (now_ms - t < 86400000)"
  unfolding ageInDays_def by linarith

lemma split_at_separator:
  "x \<notin> set xs \<Longrightarrow> x \<notin> set xs' \<Longrightarrow> xs @ x # ys = xs' @ x # ys'
     \<Longrightarrow> xs = xs' \<and> ys = ys'"
proof (induction xs arbitrary: xs')
  case Nil
  then show ?case by (cases xs') auto
next
  case (Cons z zs)
  then show ?case by (cases xs') auto
qed

section \<open>The claims\<close>

subsection \<open>C8: the time field\<close>

text \<open>
  C8. Every record an ingest writes, on whichever attempt and whether the cycle
  merged or not, carries the timestamp the handler took for the new write; the
  time of the record that was read is never written back.
\<close>

theorem time_is_new_timestamp:
  "\<forall>m \<in> set (putMetadata (events (onRequest ts cap d t world))). time m = t"
  by (rule onRequest_puts) (simp_all add: mergeExisting_time)

text \<open>A write at time 1000 into a record of time 500: the record written has time 1000.\<close>

theorem time_is_new_timestamp_witness:
  "putMetadata (events (onRequest integral 3 (sighting [''B'', ''c'']) 1000
       (script [\<lparr>now = 1000, got = stored 500 [''a'', ''b''], put_outcome = Accepted\<rparr>])))
     = [\<lparr>time = 1000, path = [''b'', ''c'', ''a'']\<rparr>]
   \<and> time (hd (putMetadata (events (onRequest integral 3 (sighting [''B'', ''c'']) 1000
       (script [\<lparr>now = 1000, got = stored 500 [''a'', ''b''], put_outcome = Accepted\<rparr>]))))) = 1000"
proof -
  have ms: "putMetadata (events (onRequest integral 3 (sighting [''B'', ''c'']) 1000
       (script [\<lparr>now = 1000, got = stored 500 [''a'', ''b''], put_outcome = Accepted\<rparr>])))
     = [\<lparr>time = 1000, path = [''b'', ''c'', ''a'']\<rparr>]"
    by code_simp
  then have "hd (putMetadata (events (onRequest integral 3 (sighting [''B'', ''c'']) 1000
       (script [\<lparr>now = 1000, got = stored 500 [''a'', ''b''], put_outcome = Accepted\<rparr>]))))
     \<in> set (putMetadata (events (onRequest integral 3 (sighting [''B'', ''c'']) 1000
       (script [\<lparr>now = 1000, got = stored 500 [''a'', ''b''], put_outcome = Accepted\<rparr>]))))"
    by simp
  with ms show ?thesis
    using time_is_new_timestamp [of integral 3 "sighting [''B'', ''c'']" 1000
        "script [\<lparr>now = 1000, got = stored 500 [''a'', ''b''], put_outcome = Accepted\<rparr>]"]
    by blast
qed

subsection \<open>C10: the edge list across retried attempts\<close>

text \<open>
  C10. The closure works on the one metadata object of the request. Attempt
  \<open>k\<close> therefore merges the record it has just read into the list left by attempt
  \<open>k - 1\<close> (into the request's own lower-cased list only for the first attempt),
  and the list written or attempted by an earlier attempt is a prefix of, hence
  contained in, the list of every later attempt.
\<close>

theorem retried_edges_only_grow:
  "(\<forall>k. k < length (putMetadata (events (onRequest ts cap d t world))) \<longrightarrow>
      putMetadata (events (onRequest ts cap d t world)) ! k =
        mergeExisting (world k)
          (if k = 0 then \<lparr>time = t, path = requestPath d\<rparr>
           else putMetadata (events (onRequest ts cap d t world)) ! (k - 1)))
   \<and> (\<forall>i j. i < j \<and> j < length (putMetadata (events (onRequest ts cap d t world))) \<longrightarrow>
        prefix (path (putMetadata (events (onRequest ts cap d t world)) ! i))
               (path (putMetadata (events (onRequest ts cap d t world)) ! j))
        \<and> set (path (putMetadata (events (onRequest ts cap d t world)) ! i))
            \<subseteq> set (path (putMetadata (events (onRequest ts cap d t world)) ! j)))"
proof -
  let ?ms = "putMetadata (events (onRequest ts cap d t world))"
  have chain: "\<And>k. k < length ?ms \<Longrightarrow>
      ?ms ! k = mergeExisting (world k)
          (if k = 0 then \<lparr>time = t, path = requestPath d\<rparr> else ?ms ! (k - 1))"
    by (rule onRequest_chain)
  have step: "\<And>k. Suc k < length ?ms \<Longrightarrow> prefix (path (?ms ! k)) (path (?ms ! Suc k))"
  proof -
    fix k assume "Suc k < length ?ms"
    from chain [OF this] have "?ms ! Suc k = mergeExisting (world (Suc k)) (?ms ! k)" by simp
    then show "prefix (path (?ms ! k)) (path (?ms ! Suc k))"
      by (simp add: mergeExisting_prefix)
  qed
  have grow: "\<And>i j. i < j \<Longrightarrow> j < length ?ms \<Longrightarrow> prefix (path (?ms ! i)) (path (?ms ! j))"
    using chain_prefix [of ?ms, OF step] by simp
  have sub: "\<And>i j. i < j \<Longrightarrow> j < length ?ms \<Longrightarrow> set (path (?ms ! i)) \<subseteq> set (path (?ms ! j))"
    using grow by (blast dest: set_mono_prefix)
  show ?thesis using chain grow sub by blast
qed

text \<open>
  A rate-limited first attempt that had merged \<open>x\<close>, then an accepted second one
  that reads \<open>y\<close>, \<open>x\<close>: the second write is \<open>n\<close>, \<open>x\<close>, \<open>y\<close>.
\<close>

theorem retried_edges_only_grow_witness:
  "putMetadata (events (onRequest integral 3 (sighting [''n'']) 1000 retriedWorld))
     = [\<lparr>time = 1000, path = [''n'', ''x'']\<rparr>, \<lparr>time = 1000, path = [''n'', ''x'', ''y'']\<rparr>]
   \<and> putMetadata (events (onRequest integral 3 (sighting [''n'']) 1000 retriedWorld)) ! 1
     = mergeExisting (retriedWorld 1)
         (putMetadata (events (onRequest integral 3 (sighting [''n'']) 1000 retriedWorld)) ! 0)
   \<and> prefix (path (putMetadata (events (onRequest integral 3 (sighting [''n'']) 1000 retriedWorld)) ! 0))
        (path (putMetadata (events (onRequest integral 3 (sighting [''n'']) 1000 retriedWorld)) ! 1))
   \<and> set (path (putMetadata (events (onRequest integral 3 (sighting [''n'']) 1000 retriedWorld)) ! 0))
        \<subseteq> set (path (putMetadata (events (onRequest integral 3 (sighting [''n'']) 1000 retriedWorld)) ! 1))"
proof -
  let ?ms = "putMetadata (events (onRequest integral 3 (sighting [''n'']) 1000 retriedWorld))"
  have ms: "?ms = [\<lparr>time = 1000, path = [''n'', ''x'']\<rparr>, \<lparr>time = 1000, path = [''n'', ''x'', ''y'']\<rparr>]"
    by code_simp
  then have len: "(1::nat) < length ?ms" by simp
  note inst = retried_edges_only_grow [of integral 3 "sighting [''n'']" 1000 retriedWorld]
  from inst [THEN conjunct1, THEN spec, of 1] len
  have a: "?ms ! 1 = mergeExisting (retriedWorld 1) (?ms ! 0)" by simp
  from inst [THEN conjunct2, THEN spec, THEN spec, of 0 1] len
  have b: "prefix (path (?ms ! 0)) (path (?ms ! 1))
      \<and> set (path (?ms ! 0)) \<subseteq> set (path (?ms ! 1))"
    by simp
  from ms a b show ?thesis by (intro conjI) (rule ms, rule a, simp_all only: b)
qed

subsection \<open>C9: merging the same edges again\<close>



subsection \<open>C5: duplicates in the stored edge list\<close>




subsection \<open>C1: the merge rule\<close>

text \<open>
  C1 as stated fails, in two ways. The membership check is an exact string
  comparison: merging the sighting \<open>a\<close> into a fresh record that holds \<open>A\<close> writes
  \<open>a\<close>, \<open>A\<close>, where the case-insensitive rule gives \<open>a\<close>. And a retried cycle starts
  from the list the previous cycle left: after a rate-limited cycle that merged
  \<open>x\<close>, the cycle that reads \<open>y\<close>, \<open>x\<close> writes \<open>n\<close>, \<open>x\<close>, \<open>y\<close>, where the rule gives
  \<open>n\<close>, \<open>y\<close>, \<open>x\<close>.
\<close>

theorem merge_rule_counterexample:
  "path (hd (accepted (events (onRequest integral 3 (sighting [''a'']) 1000
       (script [\<lparr>now = 1000, got = stored 500 [''A''], put_outcome = Accepted\<rparr>])))))
     = [''a'', ''A'']
   \<and> specMergeRule [''a''] [''A''] = [''a'']
   \<and> got (retriedWorld 1) = stored 1500 [''y'', ''x'']
   \<and> path (hd (accepted (events (onRequest integral 3 (sighting [''n'']) 1000 retriedWorld))))
     = [''n'', ''x'', ''y'']
   \<and> specMergeRule [''n''] [''y'', ''x''] = [''n'', ''y'', ''x'']"
  by code_simp

text \<open>
  C1, amended. In every write cycle of an ingest that reads a record less than one
  day old, the edge list written is the list the ingest holds at that point (the
  lower-cased new edges on the first cycle, the list of the previous cycle on a
  retried one), followed by the edges of the record read that are not already in
  it under exact string comparison, each once, in the record's order.
\<close>

theorem merge_rule:
  assumes "k < length (putMetadata (events (onRequest ts cap d t world)))"
    and "got (world k) = \<lparr>resp_value = Some v, resp_metadata = Some rm\<rparr>"
    and "ageInDays (now (world k)) (time rm) < 1"
  shows "\<exists>ys.
      path (putMetadata (events (onRequest ts cap d t world)) ! k) =
        (if k = 0 then requestPath d
         else path (putMetadata (events (onRequest ts cap d t world)) ! (k - 1))) @ ys
      \<and> subseq ys (path rm) \<and> distinct ys
      \<and> set ys = set (path rm) -
          set (if k = 0 then requestPath d
               else path (putMetadata (events (onRequest ts cap d t world)) ! (k - 1)))"
proof -
  let ?ms = "putMetadata (events (onRequest ts cap d t world))"
  let ?prev = "if k = 0 then \<lparr>time = t, path = requestPath d\<rparr> else ?ms ! (k - 1)"
  have base: "path ?prev = (if k = 0 then requestPath d else path (?ms ! (k - 1)))" by simp
  from onRequest_chain [OF assms(1)] have "?ms ! k = mergeExisting (world k) ?prev" .
  then have "path (?ms ! k) = foldl mergeEdge (path ?prev) (path rm)"
    using mergeExisting_fresh [OF assms(2,3), of ?prev] by simp
  with mergeEdge_appended [of "path ?prev" "path rm"] show ?thesis
    unfolding base by simp
qed

text \<open>
  The example of the specification: the record \<open>a\<close>, \<open>b\<close> merged with the new edges
  \<open>B\<close>, \<open>c\<close> gives \<open>b\<close>, \<open>c\<close>, \<open>a\<close>.
\<close>

theorem merge_rule_witness:
  "path (putMetadata (events (onRequest integral 3 (sighting [''B'', ''c'']) 1000
       (script [\<lparr>now = 1000, got = stored 500 [''a'', ''b''], put_outcome = Accepted\<rparr>]))) ! 0)
     = [''b'', ''c'', ''a'']
   \<and> (\<exists>ys. path (putMetadata (events (onRequest integral 3 (sighting [''B'', ''c'']) 1000
       (script [\<lparr>now = 1000, got = stored 500 [''a'', ''b''], put_outcome = Accepted\<rparr>]))) ! 0)
         = [''b'', ''c''] @ ys
       \<and> subseq ys [''a'', ''b''] \<and> distinct ys \<and> set ys = {''a''})"
proof -
  let ?w = "script [\<lparr>now = 1000, got = stored 500 [''a'', ''b''], put_outcome = Accepted\<rparr>]"
  let ?ms = "putMetadata (events (onRequest integral 3 (sighting [''B'', ''c'']) 1000 ?w))"
  have ms: "?ms = [\<lparr>time = 1000, path = [''b'', ''c'', ''a'']\<rparr>]" by code_simp
  then have k: "0 < length ?ms" by simp
  have g: "got (?w 0) = \<lparr>resp_value = Some [], resp_metadata = Some \<lparr>time = 500, path = [''a'', ''b'']\<rparr>\<rparr>"
    by (simp add: script_def stored_def)
  have a: "ageInDays (now (?w 0)) (time \<lparr>time = 500, path = [''a'', ''b'']\<rparr>) < 1"
    by (simp add: script_def ageInDays_def)
  have p: "requestPath (sighting [''B'', ''c'']) = [''b'', ''c'']" by code_simp
  have s: "set [''a'', ''b''] - set [''b'', ''c''] = {''a''}" by auto
  from merge_rule [OF k g a] have "\<exists>ys. path (?ms ! 0) = [''b'', ''c''] @ ys
       \<and> subseq ys [''a'', ''b''] \<and> distinct ys \<and> set ys = {''a''}"
    unfolding p by (simp add: s del: set_simps)
  moreover have "path (?ms ! 0) = [''b'', ''c'', ''a'']" by (simp add: ms)
  ultimately show ?thesis by (intro conjI)
qed

subsection \<open>C2: the staleness policy\<close>

text \<open>
  C2 as stated fails when a cycle is retried. The first cycle finds the record
  less than a day old, merges its edge \<open>x\<close> and is rate-limited; the second finds
  the same record one whole day old and merges nothing, yet the record it writes
  is \<open>n\<close>, \<open>x\<close>: it still holds the stored edge taken up by the first cycle.
\<close>

theorem stale_or_absent_counterexample:
  "ageInDays (now (agedWorld 1)) 0 = 1
   \<and> got (agedWorld 1) = stored 0 [''x'']
   \<and> requestPath (sighting [''n'']) = [''n'']
   \<and> accepted (events (onRequest integral 3 (sighting [''n'']) 86399000 agedWorld))
     = [\<lparr>time = 86399000, path = [''n'', ''x'']\<rparr>]"
  by code_simp

text \<open>
  C2, amended. In every write cycle of an ingest, if the read returns no value, no
  metadata, or a record whose age in whole days is at least 1, the cycle merges
  nothing: the first cycle writes exactly the lower-cased new edges, a retried
  cycle exactly the list of the previous cycle. Hence edges of the record read
  enter the list only when a record exists and is less than one day old.
\<close>

theorem stale_or_absent:
  assumes "k < length (putMetadata (events (onRequest ts cap d t world)))"
    and "resp_value (got (world k)) = None \<or> resp_metadata (got (world k)) = None
      \<or> (\<exists>rm. resp_metadata (got (world k)) = Some rm
            \<and> 1 \<le> ageInDays (now (world k)) (time rm))"
  shows "path (putMetadata (events (onRequest ts cap d t world)) ! k) =
      (if k = 0 then requestPath d
       else path (putMetadata (events (onRequest ts cap d t world)) ! (k - 1)))"
proof -
  let ?ms = "putMetadata (events (onRequest ts cap d t world))"
  let ?prev = "if k = 0 then \<lparr>time = t, path = requestPath d\<rparr> else ?ms ! (k - 1)"
  from onRequest_chain [OF assms(1)] have "?ms ! k = mergeExisting (world k) ?prev" .
  also have "\<dots> = ?prev" using assms(2) by (rule mergeExisting_stale)
  finally show ?thesis by simp
qed

text \<open>
  A first cycle that reads a record a little over one day old writes \<open>b\<close>, \<open>c\<close> only.
\<close>

theorem stale_or_absent_witness:
  "path (putMetadata (events (onRequest integral 3 (sighting [''B'', ''c'']) 86400500
       (script [\<lparr>now = 86400500, got = stored 0 [''a'', ''b''], put_outcome = Accepted\<rparr>]))) ! 0)
     = requestPath (sighting [''B'', ''c''])
   \<and> requestPath (sighting [''B'', ''c'']) = [''b'', ''c'']"
proof -
  let ?w = "script [\<lparr>now = 86400500, got = stored 0 [''a'', ''b''], put_outcome = Accepted\<rparr>]"
  let ?ms = "putMetadata (events (onRequest integral 3 (sighting [''B'', ''c'']) 86400500 ?w))"
  have "?ms = [\<lparr>time = 86400500, path = [''b'', ''c'']\<rparr>]" by code_simp
  then have k: "0 < length ?ms" by simp
  have "resp_metadata (got (?w 0)) = Some \<lparr>time = 0, path = [''a'', ''b'']\<rparr>
      \<and> 1 \<le> ageInDays (now (?w 0)) (time \<lparr>time = 0, path = [''a'', ''b'']\<rparr>)"
    by (simp add: script_def stored_def ageInDays_def)
  then have st: "resp_value (got (?w 0)) = None \<or> resp_metadata (got (?w 0)) = None
      \<or> (\<exists>rm. resp_metadata (got (?w 0)) = Some rm \<and> 1 \<le> ageInDays (now (?w 0)) (time rm))"
    by blast
  have p: "requestPath (sighting [''B'', ''c'']) = [''b'', ''c'']" by code_simp
  from stale_or_absent [OF k st] p show ?thesis by simp
qed

subsection \<open>C3: the retry policy\<close>

text \<open>
  C3. For a request whose location parses and a budget of at least one attempt,
  the operations of the ingest form at most \<open>cap\<close> cycles, each a read of the key
  followed by a write to it, with a delay between two cycles; a cycle is followed
  by another one only when its write was rejected by the rate limit, so a write
  that is accepted or fails for any other reason ends the ingest; a rate-limited
  write ends it only when the budget is used up. The promise settles accordingly.
\<close>

theorem retry_policy:
  assumes "parseLocation (data_lat d) (data_lon d) = Inr (la, lo)" and "0 < cap"
  shows "\<exists>res. settled (onRequest ts cap d t world) = Some res
      \<and> retryTrace (sampleKey ts la lo) cap (events (onRequest ts cap d t world)) res
      \<and> length (putMetadata (events (onRequest ts cap d t world))) \<le> cap"
proof -
  let ?run = "retry cap (\<lambda>i. writeCycle (sampleKey ts la lo) (world i)) 0
      \<lparr>time = t, path = requestPath d\<rparr>"
  have "?run = ((fst (fst ?run), snd (fst ?run)), snd ?run)" by simp
  with assms(2) have "retryTrace (sampleKey ts la lo) cap (snd (fst ?run)) (fst (fst ?run))"
    by (rule retry_trace)
  moreover have "length (putMetadata (snd (fst ?run))) \<le> cap" by (rule retry_attempts)
  ultimately show ?thesis by (simp add: onRequest_parsed [OF assms(1)])
qed

text \<open>
  A rate-limited first cycle, a delay, and a second cycle that reads again and is accepted.
\<close>

theorem retry_policy_witness:
  "settled (onRequest integral 3 (sighting [''n'']) 1000 retriedWorld) = Some (Inr ())
   \<and> events (onRequest integral 3 (sighting [''n'']) 1000 retriedWorld) =
       [GetWithMetadata ''1|23'', Put ''1|23'' [] \<lparr>time = 1000, path = [''n'', ''x'']\<rparr> RateLimited,
        Delay,
        GetWithMetadata ''1|23'', Put ''1|23'' [] \<lparr>time = 1000, path = [''n'', ''x'', ''y'']\<rparr> Accepted]
   \<and> retryTrace ''1|23'' 3 (events (onRequest integral 3 (sighting [''n'']) 1000 retriedWorld)) (Inr ())
   \<and> length (putMetadata (events (onRequest integral 3 (sighting [''n'']) 1000 retriedWorld))) \<le> 3"
proof -
  let ?out = "onRequest integral 3 (sighting [''n'']) 1000 retriedWorld"
  have ok: "parseLocation (data_lat (sighting [''n''])) (data_lon (sighting [''n'']))
      = Inr (Finite 1, Finite 23)"
    by (simp add: sighting_def)
  have cap: "(0::nat) < 3" by simp
  have key: "sampleKey integral (Finite 1) (Finite 23) = ''1|23''" by code_simp
  have st: "settled ?out = Some (Inr ())" by code_simp
  have ev: "events ?out =
       [GetWithMetadata ''1|23'', Put ''1|23'' [] \<lparr>time = 1000, path = [''n'', ''x'']\<rparr> RateLimited,
        Delay,
        GetWithMetadata ''1|23'', Put ''1|23'' [] \<lparr>time = 1000, path = [''n'', ''x'', ''y'']\<rparr> Accepted]"
    by code_simp
  from retry_policy [OF ok cap, of integral 1000 retriedWorld] obtain res where
    res: "settled ?out = Some res" "retryTrace ''1|23'' 3 (events ?out) res"
      "length (putMetadata (events ?out)) \<le> 3"
    unfolding key by blast
  from res(1) st have "res = Inr ()" by simp
  with res st ev show ?thesis by (intro conjI) simp_all
qed

subsection \<open>C4: how failures reach the caller\<close>

text \<open>
  C4. The handler calls \<^verbatim>\<open>retry\<close> without awaiting it and returns
  \<^verbatim>\<open>new Response('OK')\<close>. A write that the store refuses for a reason other than
  the rate limit, and one that is rate-limited on every attempt, both leave the
  promise rejected and nothing written, yet the caller is answered \<open>OK\<close>.
\<close>

theorem store_failure_answered_ok:
  "response (onRequest integral 3 (sighting [''n'']) 1000
      (script [\<lparr>now = 1000, got = absent, put_outcome = StoreError\<rparr>])) = OK
   \<and> settled (onRequest integral 3 (sighting [''n'']) 1000
      (script [\<lparr>now = 1000, got = absent, put_outcome = StoreError\<rparr>])) = Some (Inl StoreUnavailable)
   \<and> accepted (events (onRequest integral 3 (sighting [''n'']) 1000
      (script [\<lparr>now = 1000, got = absent, put_outcome = StoreError\<rparr>]))) = []
   \<and> response (onRequest integral 3 (sighting [''n'']) 1000
      (script [\<lparr>now = 1000, got = absent, put_outcome = RateLimited\<rparr>])) = OK
   \<and> settled (onRequest integral 3 (sighting [''n'']) 1000
      (script [\<lparr>now = 1000, got = absent, put_outcome = RateLimited\<rparr>])) = Some (Inl RetriesExhausted)
   \<and> accepted (events (onRequest integral 3 (sighting [''n'']) 1000
      (script [\<lparr>now = 1000, got = absent, put_outcome = RateLimited\<rparr>]))) = []"
  by code_simp

subsection \<open>C6: location normalisation\<close>

text \<open>
  C6. Normalisation fails, with \<open>InvalidLocation\<close>, exactly when one of the two
  inputs is not a finite number; two finite numbers are returned as they are,
  whatever their magnitude.
\<close>

theorem parseLocation_contract:
  "(parseLocation a b = Inl InvalidLocation) = (\<not> (isFiniteNumber a \<and> isFiniteNumber b))
   \<and> (\<forall>x y. parseLocation (Numeric (Finite x)) (Numeric (Finite y)) = Inr (Finite x, Finite y))"
  by (induction a b rule: parseLocation.induct) simp_all

text \<open>
  Coordinates far outside the geographic range pass; a missing, NaN, non-numeric
  or infinite coordinate fails.
\<close>

theorem parseLocation_contract_witness:
  "parseLocation (Numeric (Finite 1000)) (Numeric (Finite (- 1000))) = Inr (Finite 1000, Finite (- 1000))
   \<and> parseLocation Missing (Numeric (Finite 23)) = Inl InvalidLocation
   \<and> parseLocation (Numeric NaN) (Numeric (Finite 23)) = Inl InvalidLocation
   \<and> parseLocation (Numeric (Finite 1)) NonNumeric = Inl InvalidLocation
   \<and> parseLocation (Numeric (Finite 1)) (Numeric PosInfinity) = Inl InvalidLocation"
  using parseLocation_contract [of Missing "Numeric (Finite 23)"]
    parseLocation_contract [of "Numeric NaN" "Numeric (Finite 23)"]
    parseLocation_contract [of "Numeric (Finite 1)" NonNumeric]
    parseLocation_contract [of "Numeric (Finite 1)" "Numeric PosInfinity"]
  by simp

subsection \<open>C7: key derivation\<close>

text \<open>
  C7. The key is a function of the two coordinates alone. Whenever the
  number-to-text conversion tells the coordinates compared apart and prints no
  separator character in a latitude, two coordinate pairs have the same key
  exactly when they are the same pair.
\<close>

theorem sampleKey_distinguishes:
  assumes "inj_on toString {a, b, c, d}"
    and "CHR ''|'' \<notin> set (toString a)" and "CHR ''|'' \<notin> set (toString c)"
  shows "(sampleKey toString a b = sampleKey toString c d) = (a = c \<and> b = d)"
proof
  assume "sampleKey toString a b = sampleKey toString c d"
  then have "toString a @ CHR ''|'' # toString b = toString c @ CHR ''|'' # toString d"
    by (simp add: sampleKey_def)
  with assms(2,3) have eq: "toString a = toString c \<and> toString b = toString d"
    by (rule split_at_separator)
  have "a = c" using assms(1) eq by (intro inj_onD [of toString "{a, b, c, d}"]) simp_all
  moreover have "b = d" using assms(1) eq by (intro inj_onD [of toString "{a, b, c, d}"]) simp_all
  ultimately show "a = c \<and> b = d" by simp
next
  assume "a = c \<and> b = d"
  then show "sampleKey toString a b = sampleKey toString c d" by simp
qed

text \<open>
  Latitude 1 with longitude 23 and latitude 12 with longitude 3 have different keys.
\<close>

theorem sampleKey_distinguishes_witness:
  "sampleKey integral (Finite 1) (Finite 23) = ''1|23''
   \<and> sampleKey integral (Finite 12) (Finite 3) = ''12|3''
   \<and> sampleKey integral (Finite 1) (Finite 23) \<noteq> sampleKey integral (Finite 12) (Finite 3)"
proof -
  have v: "integral (Finite 1) = ''1''" "integral (Finite 23) = ''23''"
    "integral (Finite 12) = ''12''" "integral (Finite 3) = ''3''"
    by code_simp+
  have i: "inj_on integral {Finite 1, Finite 23, Finite 12, Finite 3}"
    by (simp add: inj_on_def v)
  have n: "CHR ''|'' \<notin> set (integral (Finite 1))" "CHR ''|'' \<notin> set (integral (Finite 12))"
    by (simp_all add: v)
  have k: "sampleKey integral (Finite 1) (Finite 23) = ''1|23''"
    "sampleKey integral (Finite 12) (Finite 3) = ''12|3''"
    by (simp_all add: sampleKey_def v)
  from sampleKey_distinguishes [OF i n]
  have "sampleKey integral (Finite 1) (Finite 23) \<noteq> sampleKey integral (Finite 12) (Finite 3)"
    by simp
  with k show ?thesis by (intro conjI)
qed

end
